theory Spec2Isabelle
  imports Main "HOL-Library.AList"
begin

section \<open>The notification server of elastic-search-server/index.js\<close>

text \<open>
  The server keeps one process-resident object, \<open>userSubscriptions\<close>, and talks to a
  document store through \<open>client\<close> and to connected sessions through \<open>io\<close>.
  Every handler is modelled as a function from the state before to the state after (and,
  for an HTTP handler, the reply). Calls to the document store can throw; whether a call
  throws is decided outside the program, so each handler takes the outcome of its store
  calls as an argument. Handlers are taken one at a time, each running to its end.

  Request fields, usernames, topics and room names are strings. A field that a JSON body
  may leave out is a \<open>string option\<close>; the fields of a multipart post are strings.
\<close>

subsection \<open>JavaScript objects, sets and truthiness\<close>

text \<open>
  \<open>userSubscriptions\<close> is a plain object (\<open>{}\<close>) whose values are \<open>Set\<close>s of topics.
  A \<open>Set\<close> is a duplicate-free list in insertion order; the object is an association
  list in the order in which the keys were created.
\<close>

type_synonym topic_set = "string list"
type_synonym subscriptions = "(string \<times> topic_set) list"

definition set_add :: "string \<Rightarrow> topic_set \<Rightarrow> topic_set" where
  "set_add t ts = (if t \<in> set ts then ts else ts @ [t])"

definition set_delete :: "string \<Rightarrow> topic_set \<Rightarrow> topic_set" where
  "set_delete t ts = removeAll t ts"

definition set_has :: "topic_set \<Rightarrow> string \<Rightarrow> bool" where
  "set_has ts t = (t \<in> set ts)"

text \<open>
  Reading \<open>obj[k]\<close> on a plain object finds an own property first and then the
  properties every object inherits from \<open>Object.prototype\<close>, all of which are truthy
  and none of which has an \<open>add\<close>, \<open>delete\<close> or \<open>has\<close> method.
\<close>

definition objectPrototypeKeys :: "string list" where
  "objectPrototypeKeys =
     [''constructor'', ''__defineGetter__'', ''__defineSetter__'', ''hasOwnProperty'',
      ''__lookupGetter__'', ''__lookupSetter__'', ''isPrototypeOf'',
      ''propertyIsEnumerable'', ''toString'', ''valueOf'', ''__proto__'',
      ''toLocaleString'']"

datatype property = Own topic_set | Inherited | Undefined

definition get_property :: "subscriptions \<Rightarrow> string \<Rightarrow> property" where
  "get_property obj k =
     (case map_of obj k of
        Some ts \<Rightarrow> Own ts
      | None \<Rightarrow> if k \<in> set objectPrototypeKeys then Inherited else Undefined)"

text \<open>
  \<open>for (const k in obj)\<close> visits the own enumerable keys: first the keys that are array
  indices (canonical decimal numerals below \<open>2^32 - 1\<close>) in ascending numeric order, then
  the other keys in creation order. The inherited properties are not enumerable.
\<close>

definition is_digit :: "char \<Rightarrow> bool" where
  "is_digit c = (c \<in> set ''0123456789'')"

definition digit_value :: "char \<Rightarrow> nat" where
  "digit_value c = of_char c - 48"

definition to_index :: "string \<Rightarrow> nat" where
  "to_index k = foldl (\<lambda>a c. 10 * a + digit_value c) 0 k"

definition is_array_index :: "string \<Rightarrow> bool" where
  "is_array_index k =
     (k \<noteq> [] \<and> list_all is_digit k \<and> (k = ''0'' \<or> hd k \<noteq> CHR ''0'')
      \<and> to_index k < 4294967295)"

definition for_in_keys :: "subscriptions \<Rightarrow> string list" where
  "for_in_keys obj =
     sort_key to_index (filter is_array_index (map fst obj))
     @ filter (\<lambda>k. \<not> is_array_index k) (map fst obj)"

text \<open>\<open>!x\<close> for a field that is a string or missing: true when missing or empty.\<close>

definition falsy :: "string option \<Rightarrow> bool" where
  "falsy x = (case x of None \<Rightarrow> True | Some v \<Rightarrow> v = [])"

subsection \<open>Documents, sessions and the state\<close>

text \<open>The \<open>notification\<close> object built by the post handler, and the document stored from it.\<close>

record notification =
  message :: string
  timestamp :: int
  postId :: string
  topic :: string

record notification_doc = notification +
  username :: string
  read :: bool

datatype jsval = JNull | JStr string

type_synonym post_doc = "(string \<times> jsval) list"

record socket =
  socket_username :: "string option"
  rooms :: "string list"

record state =
  userSubscriptions :: subscriptions
  sockets :: "(string \<times> socket) list"
  notifications_index :: "notification_doc list"
  es_index7 :: "(string \<times> post_doc) list"
  emitted :: "(string \<times> notification) list"

text \<open>
  \<open>sockets\<close> maps the id of each connected session to its bound username and the rooms
  it has joined; \<open>notifications_index\<close> and \<open>es_index7\<close> are the two indices of the
  document store that the handlers read and write; \<open>emitted\<close> records every
  \<open>io.to(room).emit('newPost', notification)\<close> in order.
\<close>

definition initial_state :: state where
  "initial_state =
     \<lparr>userSubscriptions = [], sockets = [], notifications_index = [], es_index7 = [],
      emitted = []\<rparr>"

datatype js_error = TypeError

datatype body =
    ErrorBody string
  | MessageBody string
  | NotificationsBody "notification_doc list"
  | StoreResponse string
  | Uncaught js_error

datatype reply = Reply nat body

subsection \<open>Session events\<close>

definition on_connection :: "string \<Rightarrow> state \<Rightarrow> state" where
  "on_connection sid s =
     s\<lparr>sockets := AList.update sid \<lparr>socket_username = None, rooms = [sid]\<rparr> (sockets s)\<rparr>"

definition socket_join :: "string \<Rightarrow> socket \<Rightarrow> socket" where
  "socket_join room sk = sk\<lparr>rooms := List.insert room (rooms sk)\<rparr>"

definition socket_leave :: "string \<Rightarrow> socket \<Rightarrow> socket" where
  "socket_leave room sk = sk\<lparr>rooms := removeAll room (rooms sk)\<rparr>"

definition on_register :: "string \<Rightarrow> string \<Rightarrow> state \<Rightarrow> state" where
  "on_register sid u s =
     (case map_of (sockets s) sid of
        None \<Rightarrow> s
      | Some sk \<Rightarrow>
          s\<lparr>sockets :=
              AList.update sid (socket_join u (sk\<lparr>socket_username := Some u\<rparr>)) (sockets s)\<rparr>)"

text \<open>
  \<open>subscribeToTopic\<close>: the session joins the room first. When the session's username is
  truthy, the topic is added to that user's set, which is created when
  \<open>userSubscriptions[socket.username]\<close> is falsy. For a username that names an inherited
  property the lookup is truthy and \<open>.add\<close> is not a function: the handler throws with
  the room joined and the registry as it was. The result pairs the state the handler leaves
  with the exception that escapes it, if any; what the runtime does with an exception that
  escapes a session handler is outside the model.
\<close>

definition on_subscribeToTopic :: "string \<Rightarrow> string \<Rightarrow> state \<Rightarrow> state \<times> js_error option" where
  "on_subscribeToTopic sid t s =
     (case map_of (sockets s) sid of
        None \<Rightarrow> (s, None)
      | Some sk \<Rightarrow>
          let s1 = s\<lparr>sockets := AList.update sid (socket_join t sk) (sockets s)\<rparr>
          in if falsy (socket_username sk) then (s1, None)
             else
               let u = the (socket_username sk)
               in (case get_property (userSubscriptions s1) u of
                     Undefined \<Rightarrow>
                       (s1\<lparr>userSubscriptions :=
                             AList.update u (set_add t []) (userSubscriptions s1)\<rparr>, None)
                   | Own ts \<Rightarrow>
                       (s1\<lparr>userSubscriptions :=
                             AList.update u (set_add t ts) (userSubscriptions s1)\<rparr>, None)
                   | Inherited \<Rightarrow> (s1, Some TypeError)))"

definition on_unsubscribeFromTopic :: "string \<Rightarrow> string \<Rightarrow> state \<Rightarrow> state \<times> js_error option" where
  "on_unsubscribeFromTopic sid t s =
     (case map_of (sockets s) sid of
        None \<Rightarrow> (s, None)
      | Some sk \<Rightarrow>
          let s1 = s\<lparr>sockets := AList.update sid (socket_leave t sk) (sockets s)\<rparr>
          in if falsy (socket_username sk) then (s1, None)
             else
               let u = the (socket_username sk)
               in (case get_property (userSubscriptions s1) u of
                     Undefined \<Rightarrow> (s1, None)
                   | Own ts \<Rightarrow>
                       (s1\<lparr>userSubscriptions :=
                             AList.update u (set_delete t ts) (userSubscriptions s1)\<rparr>, None)
                   | Inherited \<Rightarrow> (s1, Some TypeError)))"

definition on_disconnect :: "string \<Rightarrow> state \<Rightarrow> state" where
  "on_disconnect sid s = s\<lparr>sockets := AList.delete sid (sockets s)\<rparr>"

subsection \<open>Publishing a post\<close>

text \<open>
  \<open>createNotification\<close> stores \<open>{username, ...notification, read: false}\<close> and catches
  the error of a store call that throws, so it always returns normally.
\<close>

definition createNotification :: "bool \<Rightarrow> string \<Rightarrow> notification \<Rightarrow> state \<Rightarrow> state" where
  "createNotification stored u n s =
     (if stored
      then s\<lparr>notifications_index :=
               notifications_index s
               @ [\<lparr>message = message n, timestamp = timestamp n, postId = postId n,
                    topic = topic n, username = u, read = False\<rparr>]\<rparr>
      else s)"

definition emit_newPost :: "string \<Rightarrow> notification \<Rightarrow> state \<Rightarrow> state" where
  "emit_newPost room n s = s\<lparr>emitted := emitted s @ [(room, n)]\<rparr>"

text \<open>
  The loop over \<open>userSubscriptions\<close>. \<open>stores u\<close> tells whether the store call made for
  \<open>u\<close> succeeds. Every visited key is an own key, so its value is a set.
\<close>

fun fan_out :: "(string \<Rightarrow> bool) \<Rightarrow> notification \<Rightarrow> string list \<Rightarrow> state \<Rightarrow> state" where
  "fan_out stores n [] s = s"
| "fan_out stores n (u # us) s =
     fan_out stores n us
       (case map_of (userSubscriptions s) u of
          Some ts \<Rightarrow>
            if set_has ts (topic n)
            then emit_newPost u n (createNotification (stores u) u n s)
            else s
        | None \<Rightarrow> s)"

record posts_request =
  req_id :: string
  req_title :: string
  req_topic :: string
  req_description :: string
  req_author :: string
  req_dateCreated :: string
  req_file :: "string option"

text \<open>
  What the post handler meets outside the program: the error message of the store call
  for the post when it throws, the clock, and the outcome of each store call for a
  notification.
\<close>

record posts_env =
  index_error :: "string option"
  now :: int
  notification_stored :: "string \<Rightarrow> bool"

definition post_posts :: "posts_env \<Rightarrow> posts_request \<Rightarrow> state \<Rightarrow> state \<times> reply" where
  "post_posts env req s =
     (let imageUrl =
            (case req_file req of
               Some f \<Rightarrow> JStr (''http://localhost:5000/uploads/'' @ f)
             | None \<Rightarrow> JNull);
          post =
            [(''id'', JStr (req_id req)), (''title'', JStr (req_title req)),
             (''topic'', JStr (req_topic req)), (''description'', JStr (req_description req)),
             (''author'', JStr (req_author req)), (''dateCreated'', JStr (req_dateCreated req)),
             (''image'', imageUrl)]
      in case index_error env of
           Some msg \<Rightarrow> (s, Reply 500 (ErrorBody msg))
         | None \<Rightarrow>
             let s1 = s\<lparr>es_index7 := AList.update (req_id req) post (es_index7 s)\<rparr>;
                 n = \<lparr>message =
                        ''New post in '' @ req_topic req @ '' posted by '' @ req_author req
                        @ '': '' @ req_title req,
                      timestamp = now env, postId = req_id req, topic = req_topic req\<rparr>
             in (fan_out (notification_stored env) n (for_in_keys (userSubscriptions s1)) s1,
                 Reply 201 (StoreResponse (req_id req))))"

subsection \<open>Listing and clearing notifications\<close>

text \<open>
  The listing and the clear both send the store a term query on the field \<open>username\<close>.
  Which documents such a query matches is decided by the mapping of the index in the store.
  \<open>ensureNotificationsIndex\<close> declares \<open>username\<close> a keyword for the index
  \<open>notifications_index2\<close>, but every handler writes, searches and deletes in
  \<open>notifications_index\<close>, which no code of the server maps. The match is therefore an
  argument of the two handlers: \<open>m q f\<close> tells whether the term \<open>q\<close> matches a document
  whose \<open>username\<close> is \<open>f\<close>.
\<close>

type_synonym term_match = "string \<Rightarrow> string \<Rightarrow> bool"

text \<open>Under a keyword mapping the term is compared with the whole field.\<close>

definition keyword_match :: term_match where
  "keyword_match q f = (q = f)"

text \<open>
  In an index that the store creates at the first write, a string field is analysed text:
  the store keeps the words of the field in lower case, and a term matches a document when
  it is one of these words. \<open>analysed\<close> gives the words of a field made of ASCII letters,
  digits, spaces and hyphens, the last two separating words.
\<close>

definition is_alnum :: "char \<Rightarrow> bool" where
  "is_alnum c =
     (c \<in> set ''abcdefghijklmnopqrstuvwxyzABCDEFGHIJKLMNOPQRSTUVWXYZ0123456789'')"

definition lower_case :: "char \<Rightarrow> char" where
  "lower_case c =
     (case map_of (zip ''ABCDEFGHIJKLMNOPQRSTUVWXYZ'' ''abcdefghijklmnopqrstuvwxyz'') c of
        Some l \<Rightarrow> l
      | None \<Rightarrow> c)"

fun split_words :: "string \<Rightarrow> string \<Rightarrow> string list" where
  "split_words w [] = (if w = [] then [] else [w])"
| "split_words w (c # cs) =
     (if is_alnum c then split_words (w @ [lower_case c]) cs
      else (if w = [] then [] else [w]) @ split_words [] cs)"

definition analysed :: "string \<Rightarrow> string list" where
  "analysed f = split_words [] f"

definition text_match :: term_match where
  "text_match q f = (q \<in> set (analysed f))"

text \<open>
  The search asks for the matching documents, newest first, and gives no size: the store
  answers with its first \<open>page\<close> hits, \<open>page\<close> being the store's page size. Documents
  with equal timestamps keep the order of the index.
\<close>

definition search_hits ::
  "term_match \<Rightarrow> nat \<Rightarrow> string \<Rightarrow> notification_doc list \<Rightarrow> notification_doc list" where
  "search_hits m page u docs =
     take page (sort_key (\<lambda>d. - timestamp d) (filter (\<lambda>d. m u (username d)) docs))"

definition get_notifications ::
  "term_match \<Rightarrow> nat \<Rightarrow> string option \<Rightarrow> string \<Rightarrow> state \<Rightarrow> state \<times> reply" where
  "get_notifications m page search_error u s =
     (case search_error of
        Some msg \<Rightarrow> (s, Reply 500 (ErrorBody msg))
      | None \<Rightarrow>
          (s, Reply 200 (NotificationsBody (search_hits m page u (notifications_index s)))))"

definition clear_notifications ::
  "term_match \<Rightarrow> string option \<Rightarrow> string \<Rightarrow> state \<Rightarrow> state \<times> reply" where
  "clear_notifications m delete_error u s =
     (case delete_error of
        Some msg \<Rightarrow> (s, Reply 500 (ErrorBody msg))
      | None \<Rightarrow>
          (s\<lparr>notifications_index :=
               filter (\<lambda>d. \<not> m u (username d)) (notifications_index s)\<rparr>,
           Reply 200 (MessageBody (''Cleared notifications for '' @ u))))"

subsection \<open>The subscription endpoints\<close>

definition post_subscribe :: "string option \<Rightarrow> string option \<Rightarrow> state \<Rightarrow> state \<times> reply" where
  "post_subscribe u t s =
     (if falsy u \<or> falsy t
      then (s, Reply 400 (ErrorBody ''username and topic are required''))
      else (s, Reply 200 (MessageBody (''Subscribed '' @ the u @ '' to '' @ the t))))"

text \<open>
  An exception thrown in the unsubscribe handler reaches the framework, which answers 500.
\<close>

definition post_unsubscribe :: "string option \<Rightarrow> string option \<Rightarrow> state \<Rightarrow> state \<times> reply" where
  "post_unsubscribe u t s =
     (if falsy u \<or> falsy t
      then (s, Reply 400 (ErrorBody ''username and topic are required''))
      else
        (case get_property (userSubscriptions s) (the u) of
           Own ts \<Rightarrow>
             (s\<lparr>userSubscriptions :=
                  AList.update (the u) (set_delete (the t) ts) (userSubscriptions s)\<rparr>,
              Reply 200 (MessageBody (''Unsubscribed '' @ the u @ '' from '' @ the t)))
         | Inherited \<Rightarrow> (s, Reply 500 (Uncaught TypeError))
         | Undefined \<Rightarrow>
             (s, Reply 200 (MessageBody (''Unsubscribed '' @ the u @ '' from '' @ the t)))))"

subsection \<open>Updating and deleting posts\<close>

text \<open>
  Both handlers touch only the post index. The store throws for an id it does not hold.
\<close>

definition put_posts :: "string option \<Rightarrow> string \<Rightarrow> post_doc \<Rightarrow> state \<Rightarrow> state \<times> reply" where
  "put_posts update_error pid updatedPost s =
     (case update_error of
        Some msg \<Rightarrow> (s, Reply 500 (ErrorBody ''Failed to update post''))
      | None \<Rightarrow>
          (case map_of (es_index7 s) pid of
             None \<Rightarrow> (s, Reply 500 (ErrorBody ''Failed to update post''))
           | Some old \<Rightarrow>
               (s\<lparr>es_index7 :=
                    AList.update pid (fold (\<lambda>(k, v). AList.update k v) updatedPost old)
                      (es_index7 s)\<rparr>,
                Reply 200 (StoreResponse pid))))"

definition delete_posts :: "string option \<Rightarrow> string \<Rightarrow> state \<Rightarrow> state \<times> reply" where
  "delete_posts delete_error pid s =
     (case delete_error of
        Some msg \<Rightarrow> (s, Reply 500 (ErrorBody ''Failed to delete post''))
      | None \<Rightarrow>
          (case map_of (es_index7 s) pid of
             None \<Rightarrow> (s, Reply 500 (ErrorBody ''Failed to delete post''))
           | Some old \<Rightarrow>
               (s\<lparr>es_index7 := AList.delete pid (es_index7 s)\<rparr>,
                Reply 200 (StoreResponse pid))))"

subsection \<open>The server as a transition system\<close>

text \<open>
  One constructor for each handler of the file. The handlers that only read the state or
  call an outside service (the three post queries, the listing of a user's topics,
  \<open>generateReply\<close>, \<open>proxy-serpapi\<close>) leave the state as it is.
\<close>

datatype event =
    Connection string
  | Register string string
  | SubscribeToTopic string string
  | UnsubscribeFromTopic string string
  | Disconnect string
  | PostPosts posts_env posts_request
  | GetNotifications term_match nat "string option" string
  | ClearNotifications term_match "string option" string
  | GetPosts
  | GetPostsByTopic string
  | PutPosts "string option" string post_doc
  | DeletePosts "string option" string
  | Search "string option"
  | PostSubscribe "string option" "string option"
  | PostUnsubscribe "string option" "string option"
  | GetSubscriptions string
  | GenerateReply
  | ProxySerpapi

fun step :: "event \<Rightarrow> state \<Rightarrow> state" where
  "step (Connection sid) s = on_connection sid s"
| "step (Register sid u) s = on_register sid u s"
| "step (SubscribeToTopic sid t) s = fst (on_subscribeToTopic sid t s)"
| "step (UnsubscribeFromTopic sid t) s = fst (on_unsubscribeFromTopic sid t s)"
| "step (Disconnect sid) s = on_disconnect sid s"
| "step (PostPosts env req) s = fst (post_posts env req s)"
| "step (GetNotifications m page err u) s = fst (get_notifications m page err u s)"
| "step (ClearNotifications m err u) s = fst (clear_notifications m err u s)"
| "step GetPosts s = s"
| "step (GetPostsByTopic t) s = s"
| "step (PutPosts err pid doc) s = fst (put_posts err pid doc s)"
| "step (DeletePosts err pid) s = fst (delete_posts err pid s)"
| "step (Search q) s = s"
| "step (PostSubscribe u t) s = fst (post_subscribe u t s)"
| "step (PostUnsubscribe u t) s = fst (post_unsubscribe u t s)"
| "step (GetSubscriptions u) s = s"
| "step GenerateReply s = s"
| "step ProxySerpapi s = s"

definition run :: "event list \<Rightarrow> state \<Rightarrow> state" where
  "run es s = fold step es s"


subsection \<open>Subscriptions and logs\<close>

text \<open>\<open>subscribed s u t\<close>: the registry holds the pair \<open>(u, t)\<close>.\<close>

definition subscribed :: "state \<Rightarrow> string \<Rightarrow> string \<Rightarrow> bool" where
  "subscribed s u t =
     (case map_of (userSubscriptions s) u of Some ts \<Rightarrow> set_has ts t | None \<Rightarrow> False)"

text \<open>The documents of the notification index addressed to \<open>u\<close>, in index order.\<close>

definition log_for :: "string \<Rightarrow> state \<Rightarrow> notification_doc list" where
  "log_for u s = filter (\<lambda>d. username d = u) (notifications_index s)"

text \<open>The documents that the term \<open>u\<close> matches, which the listing for \<open>u\<close> draws from.\<close>

definition matched :: "term_match \<Rightarrow> string \<Rightarrow> state \<Rightarrow> notification_doc list" where
  "matched m u s = filter (\<lambda>d. m u (username d)) (notifications_index s)"

text \<open>The notification of a post and the document stored from it for \<open>u\<close>.\<close>

definition notification_of :: "posts_env \<Rightarrow> posts_request \<Rightarrow> notification" where
  "notification_of env req =
     \<lparr>message =
        ''New post in '' @ req_topic req @ '' posted by '' @ req_author req @ '': ''
        @ req_title req,
      timestamp = now env, postId = req_id req, topic = req_topic req\<rparr>"

definition doc_of :: "notification \<Rightarrow> string \<Rightarrow> notification_doc" where
  "doc_of n u =
     \<lparr>message = message n, timestamp = timestamp n, postId = postId n, topic = topic n,
      username = u, read = False\<rparr>"

subsection \<open>A concrete scenario\<close>

text \<open>
  Alice and Bob connect, register and subscribe to the topic \<open>sports\<close> through their
  sessions; the post \<open>p1\<close> is then published to that topic.
\<close>

definition game_day :: posts_request where
  "game_day =
     \<lparr>req_id = ''p1'', req_title = ''Game Day'', req_topic = ''sports'',
      req_description = ''Kick-off at noon'', req_author = ''bob'',
      req_dateCreated = ''2024-05-01'', req_file = None\<rparr>"

definition store_up :: posts_env where
  "store_up = \<lparr>index_error = None, now = 1714560000000, notification_stored = (\<lambda>u. True)\<rparr>"

definition store_down :: posts_env where
  "store_down =
     \<lparr>index_error = Some ''connect ECONNREFUSED'', now = 1714560000000,
      notification_stored = (\<lambda>u. False)\<rparr>"

definition alice_append_fails :: posts_env where
  "alice_append_fails =
     \<lparr>index_error = None, now = 1714560000000, notification_stored = (\<lambda>u. u \<noteq> ''alice'')\<rparr>"

definition alice_registered :: state where
  "alice_registered = run [Connection ''s1'', Register ''s1'' ''alice''] initial_state"

definition alice_on_sports :: state where
  "alice_on_sports = step (SubscribeToTopic ''s1'' ''sports'') alice_registered"

definition alice_and_bob_on_sports :: state where
  "alice_and_bob_on_sports =
     run [Connection ''s2'', Register ''s2'' ''bob'', SubscribeToTopic ''s2'' ''sports'']
       alice_on_sports"

definition game_day_doc :: "string \<Rightarrow> notification_doc" where
  "game_day_doc u =
     \<lparr>message = ''New post in sports posted by bob: Game Day'', timestamp = 1714560000000,
      postId = ''p1'', topic = ''sports'', username = u, read = False\<rparr>"

definition game_day_notification :: notification where
  "game_day_notification =
     \<lparr>message = ''New post in sports posted by bob: Game Day'', timestamp = 1714560000000,
      postId = ''p1'', topic = ''sports''\<rparr>"

definition game_day_post :: post_doc where
  "game_day_post =
     [(''id'', JStr ''p1''), (''title'', JStr ''Game Day''), (''topic'', JStr ''sports''),
      (''description'', JStr ''Kick-off at noon''), (''author'', JStr ''bob''),
      (''dateCreated'', JStr ''2024-05-01''), (''image'', JNull)]"





definition visitor_connected :: state where
  "visitor_connected = on_connection ''s9'' alice_on_sports"








text \<open>
  Three users whose names share the word \<open>alice\<close> follow \<open>sports\<close>, and the post \<open>p1\<close>
  has reached them.
\<close>

definition namesakes_on_sports :: state where
  "namesakes_on_sports =
     run [Connection ''s3'', Register ''s3'' ''alice smith'', SubscribeToTopic ''s3'' ''sports'',
          Connection ''s4'', Register ''s4'' ''Alice'', SubscribeToTopic ''s4'' ''sports'']
       alice_on_sports"

definition namesakes_notified :: state where
  "namesakes_notified = fst (post_posts store_up game_day namesakes_on_sports)"

subsection \<open>Sessions up to their rooms\<close>

text \<open>
  The username bound to each connected session, and the relation between two states that
  differ at most in the rooms their sessions have joined.
\<close>

definition bound_usernames :: "state \<Rightarrow> (string \<times> string option) list" where
  "bound_usernames s = map (\<lambda>(sid, sk). (sid, socket_username sk)) (sockets s)"

definition same_apart_from_rooms :: "state \<Rightarrow> state \<Rightarrow> bool" where
  "same_apart_from_rooms s s' =
     (userSubscriptions s' = userSubscriptions s
      \<and> notifications_index s' = notifications_index s
      \<and> es_index7 s' = es_index7 s
      \<and> emitted s' = emitted s
      \<and> bound_usernames s' = bound_usernames s)"

section \<open>Properties\<close>

subsection \<open>The scenario, evaluated\<close>

lemmas handler_defs =
  on_connection_def on_register_def on_subscribeToTopic_def on_unsubscribeFromTopic_def
  on_disconnect_def socket_join_def socket_leave_def get_property_def
  objectPrototypeKeys_def falsy_def set_add_def set_delete_def set_has_def Let_def

lemmas key_defs = for_in_keys_def is_array_index_def is_digit_def to_index_def digit_value_def

lemmas publish_defs =
  post_posts_def createNotification_def emit_newPost_def set_has_def game_day_def
  game_day_doc_def game_day_notification_def game_day_post_def

lemma alice_registered_eq:
  "alice_registered =
     \<lparr>userSubscriptions = [],
      sockets = [(''s1'', \<lparr>socket_username = Some ''alice'', rooms = [''alice'', ''s1'']\<rparr>)],
      notifications_index = [], es_index7 = [], emitted = []\<rparr>"
  by (simp add: alice_registered_def run_def initial_state_def handler_defs)

lemma alice_on_sports_eq:
  "alice_on_sports =
     \<lparr>userSubscriptions = [(''alice'', [''sports''])],
      sockets =
        [(''s1'', \<lparr>socket_username = Some ''alice'', rooms = [''sports'', ''alice'', ''s1'']\<rparr>)],
      notifications_index = [], es_index7 = [], emitted = []\<rparr>"
  by (simp add: alice_on_sports_def alice_registered_eq handler_defs)

lemma alice_and_bob_on_sports_eq:
  "alice_and_bob_on_sports =
     \<lparr>userSubscriptions = [(''alice'', [''sports'']), (''bob'', [''sports''])],
      sockets =
        [(''s1'', \<lparr>socket_username = Some ''alice'', rooms = [''sports'', ''alice'', ''s1'']\<rparr>),
         (''s2'', \<lparr>socket_username = Some ''bob'', rooms = [''sports'', ''bob'', ''s2'']\<rparr>)],
      notifications_index = [], es_index7 = [], emitted = []\<rparr>"
  by (simp add: alice_and_bob_on_sports_def alice_on_sports_eq run_def handler_defs)

lemma publish_to_alice:
  "post_posts store_up game_day alice_on_sports =
     (alice_on_sports
        \<lparr>notifications_index := [game_day_doc ''alice''],
         es_index7 := [(''p1'', game_day_post)],
         emitted := [(''alice'', game_day_notification)]\<rparr>,
      Reply 201 (StoreResponse ''p1''))"
  by (simp add: alice_on_sports_eq store_up_def key_defs publish_defs)

lemma publish_to_alice_and_bob:
  "post_posts store_up game_day alice_and_bob_on_sports =
     (alice_and_bob_on_sports
        \<lparr>notifications_index := [game_day_doc ''alice'', game_day_doc ''bob''],
         es_index7 := [(''p1'', game_day_post)],
         emitted := [(''alice'', game_day_notification), (''bob'', game_day_notification)]\<rparr>,
      Reply 201 (StoreResponse ''p1''))"
  by (simp add: alice_and_bob_on_sports_eq store_up_def key_defs publish_defs)

lemma publish_alice_append_fails:
  "post_posts alice_append_fails game_day alice_and_bob_on_sports =
     (alice_and_bob_on_sports
        \<lparr>notifications_index := [game_day_doc ''bob''],
         es_index7 := [(''p1'', game_day_post)],
         emitted := [(''alice'', game_day_notification), (''bob'', game_day_notification)]\<rparr>,
      Reply 201 (StoreResponse ''p1''))"
  by (simp add: alice_and_bob_on_sports_eq alice_append_fails_def key_defs publish_defs)

subsection \<open>The fan-out loop\<close>

lemma fan_out_userSubscriptions [simp]:
  "userSubscriptions (fan_out st n ks s) = userSubscriptions s"
  by (induction ks arbitrary: s)
     (auto simp: createNotification_def emit_newPost_def split: option.splits)

lemma fan_out_sockets [simp]: "sockets (fan_out st n ks s) = sockets s"
  by (induction ks arbitrary: s)
     (auto simp: createNotification_def emit_newPost_def split: option.splits)

lemma fan_out_es_index7 [simp]: "es_index7 (fan_out st n ks s) = es_index7 s"
  by (induction ks arbitrary: s)
     (auto simp: createNotification_def emit_newPost_def split: option.splits)

lemma fan_out_notifications_index:
  "notifications_index (fan_out st n ks s) =
     notifications_index s
     @ map (doc_of n) (filter (\<lambda>u. subscribed s u (topic n) \<and> st u) ks)"
proof (induction ks arbitrary: s)
  case Nil
  show ?case by simp
next
  case (Cons u us)
  show ?case
    by (simp add: Cons.IH subscribed_def createNotification_def emit_newPost_def doc_of_def
        split: option.splits)
qed

lemma fan_out_emitted:
  "emitted (fan_out st n ks s) =
     emitted s @ map (\<lambda>u. (u, n)) (filter (\<lambda>u. subscribed s u (topic n)) ks)"
proof (induction ks arbitrary: s)
  case Nil
  show ?case by simp
next
  case (Cons u us)
  show ?case
    by (simp add: Cons.IH subscribed_def createNotification_def emit_newPost_def
        split: option.splits)
qed

lemma set_for_in_keys: "set (for_in_keys obj) = fst ` set obj"
  by (auto simp: for_in_keys_def)

lemma subscribed_in_keys: "subscribed s u t \<Longrightarrow> u \<in> set (for_in_keys (userSubscriptions s))"
  by (auto simp: subscribed_def set_for_in_keys split: option.splits dest!: map_of_SomeD
      intro!: image_eqI [where x = "(u, _)"])

subsection \<open>The post handler\<close>

lemma post_posts_fails:
  "index_error env = Some msg \<Longrightarrow> post_posts env req s = (s, Reply 500 (ErrorBody msg))"
  by (simp add: post_posts_def)

lemma post_posts_reply:
  "index_error env = None \<Longrightarrow> snd (post_posts env req s) = Reply 201 (StoreResponse (req_id req))"
  by (simp add: post_posts_def Let_def)

lemma post_posts_userSubscriptions [simp]:
  "userSubscriptions (fst (post_posts env req s)) = userSubscriptions s"
  by (simp add: post_posts_def Let_def split: option.splits)

lemma post_posts_sockets [simp]: "sockets (fst (post_posts env req s)) = sockets s"
  by (simp add: post_posts_def Let_def split: option.splits)

lemma post_posts_notifications_index:
  "index_error env = None \<Longrightarrow>
   notifications_index (fst (post_posts env req s)) =
     notifications_index s
     @ map (doc_of (notification_of env req))
         (filter (\<lambda>u. subscribed s u (req_topic req) \<and> notification_stored env u)
            (for_in_keys (userSubscriptions s)))"
  by (simp add: post_posts_def Let_def fan_out_notifications_index notification_of_def
      subscribed_def)

lemma post_posts_emitted:
  "index_error env = None \<Longrightarrow>
   emitted (fst (post_posts env req s)) =
     emitted s
     @ map (\<lambda>u. (u, notification_of env req))
         (filter (\<lambda>u. subscribed s u (req_topic req)) (for_in_keys (userSubscriptions s)))"
  by (simp add: post_posts_def Let_def fan_out_emitted notification_of_def subscribed_def)


lemma search_hits_matched:
  "search_hits m page u (notifications_index s) =
     take page (sort_key (\<lambda>d. - timestamp d) (matched m u s))"
  by (simp add: search_hits_def matched_def)

lemma matched_keyword: "matched keyword_match u s = log_for u s"
  by (auto simp: matched_def log_for_def keyword_match_def intro: filter_cong)

subsection \<open>Sets, objects and sessions\<close>

lemma set_add_idem: "set_add t (set_add t ts) = set_add t ts"
  by (simp add: set_add_def)

lemma set_delete_idem: "set_delete t (set_delete t ts) = set_delete t ts"
  by (simp add: set_delete_def)

lemma socket_join_idem: "socket_join r (socket_join r sk) = socket_join r sk"
  by (simp add: socket_join_def)

lemma socket_leave_idem: "socket_leave r (socket_leave r sk) = socket_leave r sk"
  by (simp add: socket_leave_def)

lemma socket_username_join [simp]: "socket_username (socket_join r sk) = socket_username sk"
  by (simp add: socket_join_def)

lemma socket_username_leave [simp]: "socket_username (socket_leave r sk) = socket_username sk"
  by (simp add: socket_leave_def)

lemma get_property_update_same [simp]: "get_property (AList.update k v obj) k = Own v"
  by (simp add: get_property_def update_conv')

lemma get_property_update_other [simp]:
  "k' \<noteq> k \<Longrightarrow> get_property (AList.update k v obj) k' = get_property obj k'"
  by (simp add: get_property_def update_conv')

lemma map_of_update_same [simp]: "map_of (AList.update k v al) k = Some v"
  by (simp add: update_conv')

subsection \<open>Idempotence of the four subscription handlers\<close>

lemma post_subscribe_state [simp]: "fst (post_subscribe u t s) = s"
  by (simp add: post_subscribe_def)

lemma post_subscribe_idem: "post_subscribe u t (fst (post_subscribe u t s)) = post_subscribe u t s"
  by simp

lemma post_unsubscribe_idem:
  "post_unsubscribe u t (fst (post_unsubscribe u t s)) = post_unsubscribe u t s"
proof (cases "falsy u \<or> falsy t")
  case True
  then show ?thesis by (simp add: post_unsubscribe_def)
next
  case False
  show ?thesis
  proof (cases "get_property (userSubscriptions s) (the u)")
    case (Own ts)
    with False show ?thesis by (simp add: post_unsubscribe_def set_delete_idem)
  next
    case Inherited
    with False show ?thesis by (simp add: post_unsubscribe_def)
  next
    case Undefined
    with False show ?thesis by (simp add: post_unsubscribe_def)
  qed
qed

lemma on_subscribeToTopic_idem:
  "on_subscribeToTopic sid t (fst (on_subscribeToTopic sid t s)) = on_subscribeToTopic sid t s"
proof (cases "map_of (sockets s) sid")
  case None
  then show ?thesis by (simp add: on_subscribeToTopic_def)
next
  case (Some sk)
  show ?thesis
  proof (cases "falsy (socket_username sk)")
    case True
    with Some show ?thesis by (simp add: on_subscribeToTopic_def Let_def socket_join_idem)
  next
    case False
    show ?thesis
    proof (cases "get_property (userSubscriptions s) (the (socket_username sk))")
      case (Own ts)
      with Some False show ?thesis
        by (simp add: on_subscribeToTopic_def Let_def socket_join_idem set_add_idem)
    next
      case Inherited
      with Some False show ?thesis
        by (simp add: on_subscribeToTopic_def Let_def socket_join_idem)
    next
      case Undefined
      with Some False show ?thesis
        by (simp add: on_subscribeToTopic_def Let_def socket_join_idem set_add_idem)
    qed
  qed
qed

lemma on_unsubscribeFromTopic_idem:
  "on_unsubscribeFromTopic sid t (fst (on_unsubscribeFromTopic sid t s))
     = on_unsubscribeFromTopic sid t s"
proof (cases "map_of (sockets s) sid")
  case None
  then show ?thesis by (simp add: on_unsubscribeFromTopic_def)
next
  case (Some sk)
  show ?thesis
  proof (cases "falsy (socket_username sk)")
    case True
    with Some show ?thesis by (simp add: on_unsubscribeFromTopic_def Let_def socket_leave_idem)
  next
    case False
    show ?thesis
    proof (cases "get_property (userSubscriptions s) (the (socket_username sk))")
      case (Own ts)
      with Some False show ?thesis
        by (simp add: on_unsubscribeFromTopic_def Let_def socket_leave_idem set_delete_idem)
    next
      case Inherited
      with Some False show ?thesis
        by (simp add: on_unsubscribeFromTopic_def Let_def socket_leave_idem)
    next
      case Undefined
      with Some False show ?thesis
        by (simp add: on_unsubscribeFromTopic_def Let_def socket_leave_idem)
    qed
  qed
qed

subsection \<open>Clearing\<close>

lemma log_for_clear_same:
  "m u u \<Longrightarrow> log_for u (fst (clear_notifications m None u s)) = []"
  by (auto simp: log_for_def clear_notifications_def filter_empty_conv)

lemma log_for_clear_other:
  "\<not> m u v \<Longrightarrow> log_for v (fst (clear_notifications m err u s)) = log_for v s"
  by (auto simp: log_for_def clear_notifications_def split: option.splits
      intro: filter_cong)

lemma matched_clear_same: "matched m u (fst (clear_notifications m None u s)) = []"
  by (simp add: matched_def clear_notifications_def filter_empty_conv)

lemma get_notifications_matched:
  "matched m u s' = matched m u s \<Longrightarrow>
   snd (get_notifications m page err u s') = snd (get_notifications m page err u s)"
  by (simp add: get_notifications_def search_hits_matched split: option.splits)

subsection \<open>How each handler changes the registry\<close>

lemma subscribed_cong:
  "userSubscriptions s' = userSubscriptions s \<Longrightarrow> subscribed s' v w = subscribed s v w"
  by (simp add: subscribed_def)

lemma on_connection_userSubscriptions [simp]:
  "userSubscriptions (on_connection sid s) = userSubscriptions s"
  by (simp add: on_connection_def)

lemma on_register_userSubscriptions [simp]:
  "userSubscriptions (on_register sid u s) = userSubscriptions s"
  by (simp add: on_register_def split: option.splits)

lemma on_disconnect_userSubscriptions [simp]:
  "userSubscriptions (on_disconnect sid s) = userSubscriptions s"
  by (simp add: on_disconnect_def)

lemma get_notifications_state [simp]: "fst (get_notifications m page err u s) = s"
  by (simp add: get_notifications_def split: option.splits)

lemma clear_notifications_userSubscriptions [simp]:
  "userSubscriptions (fst (clear_notifications m err u s)) = userSubscriptions s"
  by (simp add: clear_notifications_def split: option.splits)

lemma put_posts_userSubscriptions [simp]:
  "userSubscriptions (fst (put_posts err pid doc s)) = userSubscriptions s"
  by (simp add: put_posts_def split: option.splits)

lemma delete_posts_userSubscriptions [simp]:
  "userSubscriptions (fst (delete_posts err pid s)) = userSubscriptions s"
  by (simp add: delete_posts_def split: option.splits)

lemma subscribed_update:
  "userSubscriptions s' = AList.update k ts (userSubscriptions s) \<Longrightarrow>
   subscribed s' v w = (if v = k then w \<in> set ts else subscribed s v w)"
  by (simp add: subscribed_def update_conv' set_has_def)

lemma get_property_Own: "get_property obj k = Own ts \<longleftrightarrow> map_of obj k = Some ts"
  by (simp add: get_property_def split: option.splits)


lemma post_unsubscribe_subscribed:
  assumes "subscribed (fst (post_unsubscribe u t s)) v w"
  shows "subscribed s v w"
proof (cases "get_property (userSubscriptions s) (the u)")
  case (Own ts)
  then have "map_of (userSubscriptions s) (the u) = Some ts"
    by (simp add: get_property_Own)
  with assms Own show ?thesis
    by (auto simp: post_unsubscribe_def subscribed_def update_conv' set_has_def
        set_delete_def split: if_splits)
next
  case Inherited
  with assms show ?thesis by (auto simp: post_unsubscribe_def split: if_splits)
next
  case Undefined
  with assms show ?thesis by (auto simp: post_unsubscribe_def split: if_splits)
qed


lemma post_unsubscribe_notifications_index [simp]:
  "notifications_index (fst (post_unsubscribe u t s)) = notifications_index s"
  by (simp add: post_unsubscribe_def split: property.splits)

lemma on_unsubscribeFromTopic_subscribed:
  "subscribed (fst (on_unsubscribeFromTopic sid t s)) v w \<Longrightarrow> subscribed s v w"
proof (cases "map_of (sockets s) sid")
  case None
  assume "subscribed (fst (on_unsubscribeFromTopic sid t s)) v w"
  with None show ?thesis by (simp add: on_unsubscribeFromTopic_def)
next
  case (Some sk)
  assume a: "subscribed (fst (on_unsubscribeFromTopic sid t s)) v w"
  show ?thesis
  proof (cases "get_property (userSubscriptions s) (the (socket_username sk))")
    case (Own ts)
    then have "map_of (userSubscriptions s) (the (socket_username sk)) = Some ts"
      by (simp add: get_property_Own)
    with a Some Own show ?thesis
      by (auto simp: on_unsubscribeFromTopic_def Let_def subscribed_def update_conv'
          set_has_def set_delete_def split: if_splits)
  next
    case Inherited
    with a Some show ?thesis
      by (auto simp: on_unsubscribeFromTopic_def Let_def subscribed_def split: if_splits)
  next
    case Undefined
    with a Some show ?thesis
      by (auto simp: on_unsubscribeFromTopic_def Let_def subscribed_def split: if_splits)
  qed
qed

lemma on_subscribeToTopic_adds_only:
  assumes "subscribed (fst (on_subscribeToTopic sid t s)) v w" and "\<not> subscribed s v w"
  shows "w = t"
proof (cases "map_of (sockets s) sid")
  case None
  with assms show ?thesis by (simp add: on_subscribeToTopic_def)
next
  case (Some sk)
  show ?thesis
  proof (cases "get_property (userSubscriptions s) (the (socket_username sk))")
    case (Own ts)
    then have "map_of (userSubscriptions s) (the (socket_username sk)) = Some ts"
      by (simp add: get_property_Own)
    with assms Some Own show ?thesis
      by (auto simp: on_subscribeToTopic_def Let_def subscribed_def update_conv'
          set_has_def set_add_def split: if_splits)
  next
    case Inherited
    with assms Some show ?thesis
      by (auto simp: on_subscribeToTopic_def Let_def subscribed_def split: if_splits)
  next
    case Undefined
    with assms Some show ?thesis
      by (auto simp: on_subscribeToTopic_def Let_def subscribed_def update_conv'
          set_has_def set_add_def split: if_splits)
  qed
qed

lemma step_adds_only_by_subscribeToTopic:
  assumes "subscribed (step e s) v w" and "\<not> subscribed s v w"
  shows "\<exists>sid. e = SubscribeToTopic sid w"
proof (cases e)
  case (SubscribeToTopic sid t)
  with assms on_subscribeToTopic_adds_only [of sid t s v w] show ?thesis by simp
next
  case (UnsubscribeFromTopic sid t)
  with assms on_unsubscribeFromTopic_subscribed [of sid t s v w] show ?thesis by simp
next
  case (PostUnsubscribe u t)
  with assms post_unsubscribe_subscribed [of u t s v w] show ?thesis by simp
qed (use assms in \<open>simp_all add: subscribed_def\<close>)

subsection \<open>How each handler changes the notification index\<close>



lemma log_for_subset_matched: "m u u \<Longrightarrow> set (log_for u s) \<subseteq> set (matched m u s)"
  by (auto simp: log_for_def matched_def)

lemma search_hits_complete:
  "length (matched m u s) \<le> page \<Longrightarrow>
   set (search_hits m page u (notifications_index s)) = set (matched m u s)"
  by (simp add: search_hits_matched)

subsection \<open>The rooms of a session do not influence the registry or the store\<close>

lemma map_update_value:
  "map (\<lambda>(k, v). (k, f v)) (AList.update k' v' al)
     = AList.update k' (f v') (map (\<lambda>(k, v). (k, f v)) al)"
  by (induction al) auto

lemma map_delete_value:
  "map (\<lambda>(k, v). (k, f v)) (AList.delete k' al)
     = AList.delete k' (map (\<lambda>(k, v). (k, f v)) al)"
  by (induction al) auto

lemma map_of_bound_usernames:
  "map_of (bound_usernames s) sid = map_option socket_username (map_of (sockets s) sid)"
  by (simp add: bound_usernames_def map_of_map)

lemma bound_usernames_update:
  "bound_usernames (s\<lparr>sockets := AList.update sid sk (sockets s)\<rparr>)
     = AList.update sid (socket_username sk) (bound_usernames s)"
  by (simp add: bound_usernames_def map_update_value)

lemma same_lookup:
  assumes "same_apart_from_rooms s s'"
  shows "map_option socket_username (map_of (sockets s') sid)
           = map_option socket_username (map_of (sockets s) sid)"
proof -
  from assms have "bound_usernames s' = bound_usernames s"
    by (simp add: same_apart_from_rooms_def)
  then have "map_of (bound_usernames s') sid = map_of (bound_usernames s) sid"
    by simp
  then show ?thesis by (simp add: map_of_bound_usernames)
qed

lemma same_on_connection:
  "same_apart_from_rooms s s' \<Longrightarrow>
   same_apart_from_rooms (on_connection sid s) (on_connection sid s')"
  by (simp add: same_apart_from_rooms_def on_connection_def bound_usernames_update)

lemma same_on_disconnect:
  "same_apart_from_rooms s s' \<Longrightarrow>
   same_apart_from_rooms (on_disconnect sid s) (on_disconnect sid s')"
  by (simp add: same_apart_from_rooms_def on_disconnect_def bound_usernames_def
      map_delete_value)

lemma same_on_register:
  assumes "same_apart_from_rooms s s'"
  shows "same_apart_from_rooms (on_register sid u s) (on_register sid u s')"
proof (cases "map_of (sockets s) sid")
  case None
  with same_lookup [OF assms, of sid] have "map_of (sockets s') sid = None" by simp
  with None assms show ?thesis by (simp add: on_register_def)
next
  case (Some sk)
  with same_lookup [OF assms, of sid] obtain sk' where "map_of (sockets s') sid = Some sk'"
    by (cases "map_of (sockets s') sid") auto
  with Some assms show ?thesis
    by (simp add: on_register_def same_apart_from_rooms_def bound_usernames_update)
qed

lemma same_on_subscribeToTopic:
  assumes "same_apart_from_rooms s s'"
  shows "same_apart_from_rooms (fst (on_subscribeToTopic sid t s))
           (fst (on_subscribeToTopic sid t s'))"
proof (cases "map_of (sockets s) sid")
  case None
  with same_lookup [OF assms, of sid] have "map_of (sockets s') sid = None" by simp
  with None assms show ?thesis by (simp add: on_subscribeToTopic_def)
next
  case (Some sk)
  with same_lookup [OF assms, of sid] obtain sk'
    where sk': "map_of (sockets s') sid = Some sk'" "socket_username sk' = socket_username sk"
    by (cases "map_of (sockets s') sid") auto
  from assms have regs: "userSubscriptions s' = userSubscriptions s"
    by (simp add: same_apart_from_rooms_def)
  show ?thesis
  proof (cases "get_property (userSubscriptions s) (the (socket_username sk))")
    case (Own ts)
    with Some sk' regs assms show ?thesis
      by (simp add: on_subscribeToTopic_def Let_def same_apart_from_rooms_def
          bound_usernames_def map_update_value)
  next
    case Inherited
    with Some sk' regs assms show ?thesis
      by (simp add: on_subscribeToTopic_def Let_def same_apart_from_rooms_def
          bound_usernames_def map_update_value)
  next
    case Undefined
    with Some sk' regs assms show ?thesis
      by (simp add: on_subscribeToTopic_def Let_def same_apart_from_rooms_def
          bound_usernames_def map_update_value)
  qed
qed

lemma same_on_unsubscribeFromTopic:
  assumes "same_apart_from_rooms s s'"
  shows "same_apart_from_rooms (fst (on_unsubscribeFromTopic sid t s))
           (fst (on_unsubscribeFromTopic sid t s'))"
proof (cases "map_of (sockets s) sid")
  case None
  with same_lookup [OF assms, of sid] have "map_of (sockets s') sid = None" by simp
  with None assms show ?thesis by (simp add: on_unsubscribeFromTopic_def)
next
  case (Some sk)
  with same_lookup [OF assms, of sid] obtain sk'
    where sk': "map_of (sockets s') sid = Some sk'" "socket_username sk' = socket_username sk"
    by (cases "map_of (sockets s') sid") auto
  from assms have regs: "userSubscriptions s' = userSubscriptions s"
    by (simp add: same_apart_from_rooms_def)
  show ?thesis
  proof (cases "get_property (userSubscriptions s) (the (socket_username sk))")
    case (Own ts)
    with Some sk' regs assms show ?thesis
      by (simp add: on_unsubscribeFromTopic_def Let_def same_apart_from_rooms_def
          bound_usernames_def map_update_value)
  next
    case Inherited
    with Some sk' regs assms show ?thesis
      by (simp add: on_unsubscribeFromTopic_def Let_def same_apart_from_rooms_def
          bound_usernames_def map_update_value)
  next
    case Undefined
    with Some sk' regs assms show ?thesis
      by (simp add: on_unsubscribeFromTopic_def Let_def same_apart_from_rooms_def
          bound_usernames_def map_update_value)
  qed
qed

lemma fan_out_same:
  assumes "same_apart_from_rooms s s'"
  shows "same_apart_from_rooms (fan_out st n ks s) (fan_out st n ks s')"
proof -
  have subs: "subscribed s' = subscribed s"
    using assms by (simp add: same_apart_from_rooms_def subscribed_def fun_eq_iff)
  from assms subs show ?thesis
    by (simp add: same_apart_from_rooms_def fan_out_notifications_index fan_out_emitted
        bound_usernames_def)
qed

lemma same_post_posts:
  assumes "same_apart_from_rooms s s'"
  shows "same_apart_from_rooms (fst (post_posts env req s)) (fst (post_posts env req s'))"
proof (cases "index_error env")
  case (Some msg)
  with assms show ?thesis by (simp add: post_posts_fails)
next
  case None
  let ?p = "[(''id'', JStr (req_id req)), (''title'', JStr (req_title req)),
             (''topic'', JStr (req_topic req)), (''description'', JStr (req_description req)),
             (''author'', JStr (req_author req)), (''dateCreated'', JStr (req_dateCreated req)),
             (''image'', case req_file req of
                Some f \<Rightarrow> JStr (''http://localhost:5000/uploads/'' @ f) | None \<Rightarrow> JNull)]"
  from assms have
    "same_apart_from_rooms (s\<lparr>es_index7 := AList.update (req_id req) ?p (es_index7 s)\<rparr>)
       (s'\<lparr>es_index7 := AList.update (req_id req) ?p (es_index7 s')\<rparr>)"
    by (simp add: same_apart_from_rooms_def bound_usernames_def)
  from fan_out_same [OF this] None assms show ?thesis
    by (simp add: post_posts_def Let_def same_apart_from_rooms_def)
qed

lemma same_step:
  assumes "same_apart_from_rooms s s'"
  shows "same_apart_from_rooms (step e s) (step e s')"
proof (cases e)
  case (Connection sid)
  with assms show ?thesis by (simp add: same_on_connection)
next
  case (Register sid u)
  with assms show ?thesis by (simp add: same_on_register)
next
  case (SubscribeToTopic sid t)
  with assms show ?thesis by (simp add: same_on_subscribeToTopic)
next
  case (UnsubscribeFromTopic sid t)
  with assms show ?thesis by (simp add: same_on_unsubscribeFromTopic)
next
  case (Disconnect sid)
  with assms show ?thesis by (simp add: same_on_disconnect)
next
  case (PostPosts env req)
  with assms show ?thesis by (simp add: same_post_posts)
next
  case (ClearNotifications m err u)
  with assms show ?thesis
    by (simp add: same_apart_from_rooms_def clear_notifications_def bound_usernames_def
        split: option.splits)
next
  case (PutPosts err pid doc)
  with assms show ?thesis
    by (simp add: same_apart_from_rooms_def put_posts_def bound_usernames_def
        split: option.splits)
next
  case (DeletePosts err pid)
  with assms show ?thesis
    by (simp add: same_apart_from_rooms_def delete_posts_def bound_usernames_def
        split: option.splits)
next
  case (PostUnsubscribe u t)
  with assms show ?thesis
    by (simp add: same_apart_from_rooms_def post_unsubscribe_def bound_usernames_def
        split: property.splits)
qed (use assms in simp_all)

lemma same_run:
  "same_apart_from_rooms s s' \<Longrightarrow> same_apart_from_rooms (run es s) (run es s')"
  by (induction es arbitrary: s s') (simp_all add: run_def same_step)

subsection \<open>The scenario, continued\<close>




lemma visitor_connected_eq:
  "visitor_connected =
     \<lparr>userSubscriptions = [(''alice'', [''sports''])],
      sockets =
        [(''s1'', \<lparr>socket_username = Some ''alice'', rooms = [''sports'', ''alice'', ''s1'']\<rparr>),
         (''s9'', \<lparr>socket_username = None, rooms = [''s9'']\<rparr>)],
      notifications_index = [], es_index7 = [], emitted = []\<rparr>"
  by (simp add: visitor_connected_def alice_on_sports_eq on_connection_def)

subsection \<open>Subscribing through a session\<close>

lemma on_subscribeToTopic_subscribes:
  assumes "map_of (sockets s) sid = Some sk" and "socket_username sk = Some u" and "u \<noteq> []"
    and "u \<notin> set objectPrototypeKeys"
  shows "subscribed (fst (on_subscribeToTopic sid t s)) u t"
proof (cases "get_property (userSubscriptions s) u")
  case (Own ts)
  with assms show ?thesis
    by (simp add: on_subscribeToTopic_def Let_def falsy_def subscribed_def set_has_def
        set_add_def)
next
  case Inherited
  with assms(4) show ?thesis
    by (simp add: get_property_def split: option.splits if_splits)
next
  case Undefined
  with assms show ?thesis
    by (simp add: on_subscribeToTopic_def Let_def falsy_def subscribed_def set_has_def
        set_add_def)
qed

lemma on_subscribeToTopic_notifications_index [simp]:
  "notifications_index (fst (on_subscribeToTopic sid t s)) = notifications_index s"
  by (simp add: on_subscribeToTopic_def Let_def split: option.splits property.splits)

lemma inherited_not_empty: "u \<in> set objectPrototypeKeys \<Longrightarrow> u \<noteq> []"
  by (auto simp: objectPrototypeKeys_def)

lemma own_keys_step:
  assumes "fst ` set (userSubscriptions s) \<inter> set objectPrototypeKeys = {}"
  shows "fst ` set (userSubscriptions (step e s)) \<inter> set objectPrototypeKeys = {}"
proof (cases e)
  case (SubscribeToTopic sid t)
  show ?thesis
  proof (cases "map_of (sockets s) sid")
    case None
    with assms SubscribeToTopic show ?thesis by (simp add: on_subscribeToTopic_def)
  next
    case (Some sk)
    show ?thesis
    proof (cases "get_property (userSubscriptions s) (the (socket_username sk))")
      case (Own ts)
      then have "map_of (userSubscriptions s) (the (socket_username sk)) = Some ts"
        by (simp add: get_property_Own)
      then have "the (socket_username sk) \<in> fst ` set (userSubscriptions s)"
        by (metis domI dom_map_of_conv_image_fst)
      with assms have "the (socket_username sk) \<notin> set objectPrototypeKeys"
        by auto
      with assms SubscribeToTopic Some Own show ?thesis
        by (simp add: on_subscribeToTopic_def Let_def dom_update)
    next
      case Inherited
      with assms SubscribeToTopic Some show ?thesis
        by (simp add: on_subscribeToTopic_def Let_def)
    next
      case Undefined
      then have "the (socket_username sk) \<notin> set objectPrototypeKeys"
        by (simp add: get_property_def split: option.splits if_splits)
      with assms SubscribeToTopic Some Undefined show ?thesis
        by (simp add: on_subscribeToTopic_def Let_def dom_update)
    qed
  qed
next
  case (UnsubscribeFromTopic sid t)
  show ?thesis
  proof (cases "map_of (sockets s) sid")
    case None
    with assms UnsubscribeFromTopic show ?thesis by (simp add: on_unsubscribeFromTopic_def)
  next
    case (Some sk)
    show ?thesis
    proof (cases "get_property (userSubscriptions s) (the (socket_username sk))")
      case (Own ts)
      then have "map_of (userSubscriptions s) (the (socket_username sk)) = Some ts"
        by (simp add: get_property_Own)
      then have "the (socket_username sk) \<in> fst ` set (userSubscriptions s)"
        by (metis domI dom_map_of_conv_image_fst)
      with assms have "the (socket_username sk) \<notin> set objectPrototypeKeys"
        by auto
      with assms UnsubscribeFromTopic Some Own show ?thesis
        by (simp add: on_unsubscribeFromTopic_def Let_def dom_update)
    next
      case Inherited
      with assms UnsubscribeFromTopic Some show ?thesis
        by (simp add: on_unsubscribeFromTopic_def Let_def)
    next
      case Undefined
      with assms UnsubscribeFromTopic Some show ?thesis
        by (simp add: on_unsubscribeFromTopic_def Let_def)
    qed
  qed
next
  case (PostUnsubscribe u t)
  show ?thesis
  proof (cases "get_property (userSubscriptions s) (the u)")
    case (Own ts)
    then have "map_of (userSubscriptions s) (the u) = Some ts"
      by (simp add: get_property_Own)
    then have "the u \<in> fst ` set (userSubscriptions s)"
      by (metis domI dom_map_of_conv_image_fst)
    with assms have "the u \<notin> set objectPrototypeKeys"
      by auto
    with assms PostUnsubscribe Own show ?thesis
      by (simp add: post_unsubscribe_def dom_update)
  next
    case Inherited
    with assms PostUnsubscribe show ?thesis by (simp add: post_unsubscribe_def)
  next
    case Undefined
    with assms PostUnsubscribe show ?thesis by (simp add: post_unsubscribe_def)
  qed
qed (use assms in simp_all)

lemma own_keys_run:
  "fst ` set (userSubscriptions s) \<inter> set objectPrototypeKeys = {} \<Longrightarrow>
   fst ` set (userSubscriptions (run es s)) \<inter> set objectPrototypeKeys = {}"
  by (induction es arbitrary: s) (simp_all add: run_def own_keys_step)

lemma own_keys_reachable:
  "fst ` set (userSubscriptions (run es initial_state)) \<inter> set objectPrototypeKeys = {}"
  by (rule own_keys_run) (simp add: initial_state_def)


subsection \<open>The scenarios of the listing and the clear\<close>

lemmas analysed_defs = analysed_def is_alnum_def lower_case_def

lemma analysed_alice: "analysed ''alice'' = [''alice'']"
  by (simp add: analysed_defs)

lemma analysed_alice_smith: "analysed ''alice smith'' = [''alice'', ''smith'']"
  by (simp add: analysed_defs)

lemma analysed_Alice: "analysed ''Alice'' = [''alice'']"
  by (simp add: analysed_defs)










lemma namesakes_on_sports_registry:
  "userSubscriptions namesakes_on_sports =
     [(''alice'', [''sports'']), (''alice smith'', [''sports'']), (''Alice'', [''sports''])]"
  by (simp add: namesakes_on_sports_def alice_on_sports_eq run_def handler_defs)

lemma namesakes_notified_index:
  "notifications_index namesakes_notified =
     [game_day_doc ''alice'', game_day_doc ''alice smith'', game_day_doc ''Alice'']"
proof -
  have up: "index_error store_up = None"
    by (simp add: store_up_def)
  have keys: "for_in_keys
      [(''alice'', [''sports'']), (''alice smith'', [''sports'']), (''Alice'', [''sports''])]
      = [''alice'', ''alice smith'', ''Alice'']"
    by (simp add: key_defs)
  have old: "notifications_index namesakes_on_sports = []"
    by (simp add: namesakes_on_sports_def alice_on_sports_eq run_def handler_defs)
  have doc: "doc_of (notification_of store_up game_day) u = game_day_doc u" for u
    by (simp add: doc_of_def notification_of_def store_up_def game_day_def game_day_doc_def)
  have stored: "notification_stored store_up u" for u
    by (simp add: store_up_def)
  have topic: "req_topic game_day = ''sports''"
    by (simp add: game_day_def)
  from post_posts_notifications_index [OF up, of game_day namesakes_on_sports]
  show ?thesis
    by (simp add: namesakes_notified_def namesakes_on_sports_registry keys old doc stored
        topic subscribed_def set_has_def)
qed

section \<open>Properties of the specification\<close>

text \<open>
  C1. The scenario through the HTTP endpoint: with her session registered, Alice posts a
  subscribe request for \<open>sports\<close> and is answered \<open>Subscribed alice to sports\<close>; the post
  \<open>p1\<close> is then published to \<open>sports\<close> and persisted; the listing for Alice that follows
  holds no notification, whatever the store's term query matches, and the registry never
  held the pair.
\<close>

theorem http_subscribe_then_publish_delivers_nothing:
  "snd (post_subscribe (Some ''alice'') (Some ''sports'') alice_registered)
     = Reply 200 (MessageBody ''Subscribed alice to sports'')
   \<and> \<not> subscribed (fst (post_subscribe (Some ''alice'') (Some ''sports'') alice_registered))
          ''alice'' ''sports''
   \<and> snd (post_posts store_up game_day
        (fst (post_subscribe (Some ''alice'') (Some ''sports'') alice_registered)))
       = Reply 201 (StoreResponse ''p1'')
   \<and> snd (get_notifications m 10 None ''alice''
        (fst (post_posts store_up game_day
           (fst (post_subscribe (Some ''alice'') (Some ''sports'') alice_registered)))))
       = Reply 200 (NotificationsBody [])"
proof -
  have reply: "snd (post_subscribe (Some ''alice'') (Some ''sports'') alice_registered)
      = Reply 200 (MessageBody ''Subscribed alice to sports'')"
    by (simp add: post_subscribe_def falsy_def)
  have none: "\<not> subscribed alice_registered ''alice'' ''sports''"
    by (simp add: subscribed_def alice_registered_eq)
  have published: "post_posts store_up game_day alice_registered
      = (alice_registered\<lparr>es_index7 := [(''p1'', game_day_post)]\<rparr>,
         Reply 201 (StoreResponse ''p1''))"
    by (simp add: alice_registered_eq store_up_def key_defs publish_defs)
  have listing: "snd (get_notifications m 10 None ''alice''
      (alice_registered\<lparr>es_index7 := [(''p1'', game_day_post)]\<rparr>))
      = Reply 200 (NotificationsBody [])"
    by (simp add: get_notifications_def search_hits_def alice_registered_eq)
  from reply none published listing show ?thesis
    by simp
qed

text \<open>
  C2. A request to the HTTP subscribe endpoint that carries a username and a topic (both
  present and not empty) is answered 200 with the message \<open>Subscribed <username> to
  <topic>\<close> and leaves the whole state, the registry included, as it was. Over all the
  handlers of the server: when a step makes the registry hold a pair \<open>(v, w)\<close> that it did
  not hold before, the step is a \<open>subscribeToTopic\<close> event for the topic \<open>w\<close>.
\<close>

theorem http_subscribe_changes_nothing:
  "(\<not> falsy u \<and> \<not> falsy t \<longrightarrow>
      post_subscribe u t s
        = (s, Reply 200 (MessageBody (''Subscribed '' @ the u @ '' to '' @ the t))))
   \<and> (subscribed (step e s) v w \<and> \<not> subscribed s v w \<longrightarrow>
        (\<exists>sid. e = SubscribeToTopic sid w))"
  using step_adds_only_by_subscribeToTopic [of e s v w]
  by (simp add: post_subscribe_def)

text \<open>
  With Alice's session registered: the HTTP request leaves the state and the registry
  without the pair, and the session event adds it.
\<close>

theorem http_subscribe_changes_nothing_witness:
  "\<not> falsy (Some ''alice'') \<and> \<not> falsy (Some ''sports'')
   \<and> post_subscribe (Some ''alice'') (Some ''sports'') alice_registered
       = (alice_registered, Reply 200 (MessageBody ''Subscribed alice to sports''))
   \<and> \<not> subscribed (step (PostSubscribe (Some ''alice'') (Some ''sports'')) alice_registered)
          ''alice'' ''sports''
   \<and> subscribed (step (SubscribeToTopic ''s1'' ''sports'') alice_registered)
        ''alice'' ''sports''
   \<and> \<not> subscribed alice_registered ''alice'' ''sports''"
proof -
  have truthy: "\<not> falsy (Some ''alice'')" "\<not> falsy (Some ''sports'')"
    by (simp_all add: falsy_def)
  have before: "\<not> subscribed alice_registered ''alice'' ''sports''"
    by (simp add: subscribed_def alice_registered_eq)
  have after: "subscribed (step (SubscribeToTopic ''s1'' ''sports'') alice_registered)
      ''alice'' ''sports''"
    using alice_on_sports_eq by (simp add: alice_on_sports_def subscribed_def set_has_def)
  from http_subscribe_changes_nothing
         [of "Some ''alice''" "Some ''sports''" alice_registered
            "SubscribeToTopic ''s1'' ''sports''" "''alice''" "''sports''"]
       truthy before after
  show ?thesis by simp
qed



text \<open>
  C4. When the store call that persists the post throws, the handler answers 500 with the
  error's message and the state is the state before the request: no document is added to
  the notification index and nothing is emitted to any room.
\<close>

theorem persist_failure_has_no_side_effects:
  assumes "index_error env = Some msg"
  shows "snd (post_posts env req s) = Reply 500 (ErrorBody msg)
       \<and> fst (post_posts env req s) = s
       \<and> notifications_index (fst (post_posts env req s)) = notifications_index s
       \<and> emitted (fst (post_posts env req s)) = emitted s"
  by (simp add: post_posts_fails [OF assms])

theorem persist_failure_has_no_side_effects_witness:
  "index_error store_down = Some ''connect ECONNREFUSED''
   \<and> snd (post_posts store_down game_day alice_and_bob_on_sports)
       = Reply 500 (ErrorBody ''connect ECONNREFUSED'')
   \<and> notifications_index (fst (post_posts store_down game_day alice_and_bob_on_sports)) = []
   \<and> emitted (fst (post_posts store_down game_day alice_and_bob_on_sports)) = []"
proof -
  have down: "index_error store_down = Some ''connect ECONNREFUSED''"
    by (simp add: store_down_def)
  from persist_failure_has_no_side_effects [OF down, of game_day alice_and_bob_on_sports] down
  show ?thesis by (simp add: alice_and_bob_on_sports_eq)
qed

text \<open>
  C5. When the post is persisted, the documents that a publish adds to the notification
  index are, for the subscribers of the post's topic whose store call succeeds and in the
  order of the loop, exactly the documents with message
  \<open>New post in <topic> posted by <author>: <title>\<close>, the time of the publish as
  timestamp, the post's id as \<open>postId\<close>, the post's topic, the subscriber as username
  and \<open>read\<close> false.
\<close>

theorem notification_contents:
  assumes "index_error env = None"
  shows "notifications_index (fst (post_posts env req s)) =
           notifications_index s
           @ map (\<lambda>u. \<lparr>message =
                          ''New post in '' @ req_topic req @ '' posted by '' @ req_author req
                          @ '': '' @ req_title req,
                        timestamp = now env, postId = req_id req, topic = req_topic req,
                        username = u, read = False\<rparr>)
               (filter (\<lambda>u. subscribed s u (req_topic req) \<and> notification_stored env u)
                  (for_in_keys (userSubscriptions s)))"
  by (simp add: post_posts_notifications_index [OF assms] doc_of_def notification_of_def)

theorem notification_contents_witness:
  "index_error store_up = None
   \<and> notifications_index (fst (post_posts store_up game_day alice_and_bob_on_sports)) =
       [\<lparr>message = ''New post in sports posted by bob: Game Day'', timestamp = 1714560000000,
         postId = ''p1'', topic = ''sports'', username = ''alice'', read = False\<rparr>,
        \<lparr>message = ''New post in sports posted by bob: Game Day'', timestamp = 1714560000000,
         postId = ''p1'', topic = ''sports'', username = ''bob'', read = False\<rparr>]"
proof -
  have up: "index_error store_up = None"
    by (simp add: store_up_def)
  have keys: "for_in_keys (userSubscriptions alice_and_bob_on_sports) = [''alice'', ''bob'']"
    by (simp add: alice_and_bob_on_sports_eq key_defs)
  have subs: "subscribed alice_and_bob_on_sports ''alice'' ''sports''"
    "subscribed alice_and_bob_on_sports ''bob'' ''sports''"
    by (simp_all add: subscribed_def set_has_def alice_and_bob_on_sports_eq)
  have old: "notifications_index alice_and_bob_on_sports = []"
    by (simp add: alice_and_bob_on_sports_eq)
  from notification_contents [OF up, of game_day alice_and_bob_on_sports] up keys subs old
  show ?thesis by (simp add: game_day_def store_up_def)
qed




text \<open>
  C7. The clear on an index whose usernames are analysed text. Alice, \<open>alice smith\<close> and
  \<open>Alice\<close> each hold the document of the post \<open>p1\<close>. The clear for \<open>alice\<close> is answered
  \<open>Cleared notifications for alice\<close> and deletes the documents of all three, since each
  username has the word \<open>alice\<close>; the clear for \<open>Alice\<close> deletes nothing, since no word
  is kept in upper case, and her document stays in the index.
\<close>

theorem clear_on_analysed_usernames:
  "log_for ''alice smith'' namesakes_notified = [game_day_doc ''alice smith'']
   \<and> log_for ''Alice'' namesakes_notified = [game_day_doc ''Alice'']
   \<and> snd (clear_notifications text_match None ''alice'' namesakes_notified)
       = Reply 200 (MessageBody ''Cleared notifications for alice'')
   \<and> log_for ''alice smith'' (fst (clear_notifications text_match None ''alice''
        namesakes_notified)) = []
   \<and> log_for ''Alice'' (fst (clear_notifications text_match None ''alice''
        namesakes_notified)) = []
   \<and> snd (clear_notifications text_match None ''Alice'' namesakes_notified)
       = Reply 200 (MessageBody ''Cleared notifications for Alice'')
   \<and> log_for ''Alice'' (fst (clear_notifications text_match None ''Alice''
        namesakes_notified)) = [game_day_doc ''Alice'']"
proof -
  have words: "text_match ''alice'' ''alice''" "text_match ''alice'' ''alice smith''"
    "text_match ''alice'' ''Alice''" "\<not> text_match ''Alice'' ''alice''"
    "\<not> text_match ''Alice'' ''alice smith''" "\<not> text_match ''Alice'' ''Alice''"
    by (simp_all add: text_match_def analysed_alice analysed_alice_smith analysed_Alice)
  have names: "username (game_day_doc u) = u" for u
    by (simp add: game_day_doc_def)
  have cleared: "notifications_index
      (fst (clear_notifications text_match None ''alice'' namesakes_notified)) = []"
    by (simp add: clear_notifications_def namesakes_notified_index names words)
  have kept: "notifications_index
      (fst (clear_notifications text_match None ''Alice'' namesakes_notified))
      = notifications_index namesakes_notified"
    by (simp add: clear_notifications_def namesakes_notified_index names words)
  have before: "log_for ''alice smith'' namesakes_notified = [game_day_doc ''alice smith'']"
    "log_for ''Alice'' namesakes_notified = [game_day_doc ''Alice'']"
    by (simp_all add: log_for_def namesakes_notified_index names)
  have replies:
    "snd (clear_notifications text_match None ''alice'' namesakes_notified)
       = Reply 200 (MessageBody ''Cleared notifications for alice'')"
    "snd (clear_notifications text_match None ''Alice'' namesakes_notified)
       = Reply 200 (MessageBody ''Cleared notifications for Alice'')"
    by (simp_all add: clear_notifications_def)
  from before replies show ?thesis
    by (simp add: log_for_def cleared kept namesakes_notified_index names)
qed

text \<open>
  C8. Each of the four handlers that take a subscription request, run a second time with
  the same arguments on the state the first run left, gives the result of the first run
  again and leaves that state as it is: the HTTP subscribe and unsubscribe endpoints and
  the session events \<open>subscribeToTopic\<close> and \<open>unsubscribeFromTopic\<close>. In particular the
  registry after the second call is the registry after the first.
\<close>

theorem subscribe_unsubscribe_idempotent:
  "post_subscribe u t (fst (post_subscribe u t s)) = post_subscribe u t s
   \<and> post_unsubscribe u t (fst (post_unsubscribe u t s)) = post_unsubscribe u t s
   \<and> on_subscribeToTopic sid w (fst (on_subscribeToTopic sid w s))
       = on_subscribeToTopic sid w s
   \<and> on_unsubscribeFromTopic sid w (fst (on_unsubscribeFromTopic sid w s))
       = on_unsubscribeFromTopic sid w s"
  by (simp only: post_subscribe_idem post_unsubscribe_idem on_subscribeToTopic_idem
      on_unsubscribeFromTopic_idem)

theorem subscribe_unsubscribe_idempotent_witness:
  "userSubscriptions (fst (on_subscribeToTopic ''s1'' ''sports'' alice_registered))
     = [(''alice'', [''sports''])]
   \<and> userSubscriptions
        (fst (on_subscribeToTopic ''s1'' ''sports''
           (fst (on_subscribeToTopic ''s1'' ''sports'' alice_registered))))
       = [(''alice'', [''sports''])]
   \<and> userSubscriptions
        (fst (post_unsubscribe (Some ''alice'') (Some ''sports'') alice_on_sports))
       = [(''alice'', [])]
   \<and> userSubscriptions
        (fst (post_unsubscribe (Some ''alice'') (Some ''sports'')
           (fst (post_unsubscribe (Some ''alice'') (Some ''sports'') alice_on_sports))))
       = [(''alice'', [])]"
proof -
  have sub: "userSubscriptions (fst (on_subscribeToTopic ''s1'' ''sports'' alice_registered))
      = [(''alice'', [''sports''])]"
    by (simp add: alice_registered_eq handler_defs)
  have unsub: "userSubscriptions
      (fst (post_unsubscribe (Some ''alice'') (Some ''sports'') alice_on_sports))
      = [(''alice'', [])]"
    by (simp add: alice_on_sports_eq post_unsubscribe_def handler_defs)
  from subscribe_unsubscribe_idempotent
         [of "Some ''alice''" "Some ''sports''" alice_on_sports "''s1''" "''sports''"]
       subscribe_unsubscribe_idempotent
         [of "Some ''alice''" "Some ''sports''" alice_registered "''s1''" "''sports''"]
       sub unsub
  show ?thesis by simp
qed

text \<open>
  C9. When the post is persisted, the handler answers 201 whatever the outcome of the store
  calls for the notifications; every subscriber \<open>u\<close> of the post's topic is sent the
  notification, and has its document stored whenever the store call made for \<open>u\<close> itself
  succeeds. Nothing is assumed about the store calls made for the other subscribers: a
  failure for one of them neither stops the loop nor fails the publish.
\<close>

theorem append_failure_does_not_abort:
  assumes "index_error env = None" and "subscribed s u (req_topic req)"
  shows "snd (post_posts env req s) = Reply 201 (StoreResponse (req_id req))
       \<and> (u, notification_of env req) \<in> set (emitted (fst (post_posts env req s)))
       \<and> (notification_stored env u \<longrightarrow>
            doc_of (notification_of env req) u
              \<in> set (notifications_index (fst (post_posts env req s))))"
  using assms subscribed_in_keys [OF assms(2)]
  by (simp add: post_posts_reply post_posts_emitted post_posts_notifications_index)

text \<open>
  The store call for Alice, the first subscriber of the loop, fails: Bob, visited after her,
  still gets his document and his push, Alice still gets her push, and the reply is 201.
\<close>

theorem append_failure_does_not_abort_witness:
  "index_error alice_append_fails = None
   \<and> \<not> notification_stored alice_append_fails ''alice''
   \<and> notification_stored alice_append_fails ''bob''
   \<and> for_in_keys (userSubscriptions alice_and_bob_on_sports) = [''alice'', ''bob'']
   \<and> subscribed alice_and_bob_on_sports ''bob'' ''sports''
   \<and> snd (post_posts alice_append_fails game_day alice_and_bob_on_sports)
       = Reply 201 (StoreResponse ''p1'')
   \<and> (''bob'', game_day_notification)
       \<in> set (emitted (fst (post_posts alice_append_fails game_day alice_and_bob_on_sports)))
   \<and> game_day_doc ''bob''
       \<in> set (notifications_index
                (fst (post_posts alice_append_fails game_day alice_and_bob_on_sports)))
   \<and> emitted (fst (post_posts alice_append_fails game_day alice_and_bob_on_sports))
       = [(''alice'', game_day_notification), (''bob'', game_day_notification)]"
proof -
  have ok: "index_error alice_append_fails = None"
    by (simp add: alice_append_fails_def)
  have st: "\<not> notification_stored alice_append_fails ''alice''"
    "notification_stored alice_append_fails ''bob''"
    by (simp_all add: alice_append_fails_def)
  have keys: "for_in_keys (userSubscriptions alice_and_bob_on_sports) = [''alice'', ''bob'']"
    by (simp add: alice_and_bob_on_sports_eq key_defs)
  have sub: "subscribed alice_and_bob_on_sports ''bob'' (req_topic game_day)"
    by (simp add: subscribed_def set_has_def alice_and_bob_on_sports_eq game_day_def)
  have n: "notification_of alice_append_fails game_day = game_day_notification"
    by (simp add: notification_of_def alice_append_fails_def game_day_def
        game_day_notification_def)
  have d: "doc_of game_day_notification ''bob'' = game_day_doc ''bob''"
    by (simp add: doc_of_def game_day_notification_def game_day_doc_def)
  have em: "emitted (fst (post_posts alice_append_fails game_day alice_and_bob_on_sports))
      = [(''alice'', game_day_notification), (''bob'', game_day_notification)]"
    by (simp add: publish_alice_append_fails)
  from append_failure_does_not_abort [OF ok sub] ok st keys sub n d em
  show ?thesis by (simp add: game_day_def)
qed

text \<open>
  C10. On a connected session that no \<open>register\<close> has bound to a username, a
  \<open>subscribeToTopic\<close> event adds the topic to the rooms of the session and changes
  nothing else: the registry is the registry before the event, and after any sequence of
  later steps the registry, the notification index and the pushes are those that the same
  steps give without the event.
\<close>

theorem unbound_session_creates_no_subscription:
  assumes "map_of (sockets s) sid = Some sk" and "socket_username sk = None"
  shows "on_subscribeToTopic sid t s
           = (s\<lparr>sockets := AList.update sid (socket_join t sk) (sockets s)\<rparr>, None)
       \<and> t \<in> set (rooms (socket_join t sk))
       \<and> userSubscriptions (fst (on_subscribeToTopic sid t s)) = userSubscriptions s
       \<and> userSubscriptions (run es (fst (on_subscribeToTopic sid t s)))
           = userSubscriptions (run es s)
       \<and> notifications_index (run es (fst (on_subscribeToTopic sid t s)))
           = notifications_index (run es s)
       \<and> emitted (run es (fst (on_subscribeToTopic sid t s))) = emitted (run es s)"
proof -
  let ?s1 = "s\<lparr>sockets := AList.update sid (socket_join t sk) (sockets s)\<rparr>"
  from assms have event: "on_subscribeToTopic sid t s = (?s1, None)"
    by (simp add: on_subscribeToTopic_def Let_def falsy_def)
  have joined: "t \<in> set (rooms (socket_join t sk))"
    by (simp add: socket_join_def)
  have "AList.update sid (socket_username sk) (bound_usernames s) = bound_usernames s"
    using assms(1) by (simp add: update_triv map_of_bound_usernames)
  then have "same_apart_from_rooms s ?s1"
    by (simp add: same_apart_from_rooms_def bound_usernames_update)
  then have "same_apart_from_rooms (run es s) (run es ?s1)"
    by (rule same_run)
  with event joined show ?thesis
    by (simp add: same_apart_from_rooms_def)
qed

text \<open>
  A session connects and subscribes to \<open>sports\<close> without registering: it is in the room,
  the registry still holds Alice's pair only, and the post reaches Alice alone.
\<close>

theorem unbound_session_creates_no_subscription_witness:
  "map_of (sockets visitor_connected) ''s9'' = Some \<lparr>socket_username = None, rooms = [''s9'']\<rparr>
   \<and> socket_username \<lparr>socket_username = None, rooms = [''s9'']\<rparr> = None
   \<and> map_of (sockets (fst (on_subscribeToTopic ''s9'' ''sports'' visitor_connected))) ''s9''
       = Some \<lparr>socket_username = None, rooms = [''sports'', ''s9'']\<rparr>
   \<and> userSubscriptions (fst (on_subscribeToTopic ''s9'' ''sports'' visitor_connected))
       = [(''alice'', [''sports''])]
   \<and> notifications_index
        (run [PostPosts store_up game_day]
           (fst (on_subscribeToTopic ''s9'' ''sports'' visitor_connected)))
       = [game_day_doc ''alice'']"
proof -
  let ?sk = "\<lparr>socket_username = None, rooms = [''s9'']\<rparr>"
  have found: "map_of (sockets visitor_connected) ''s9'' = Some ?sk"
    by (simp add: visitor_connected_eq)
  have unbound: "socket_username ?sk = None"
    by simp
  have registry: "userSubscriptions visitor_connected = [(''alice'', [''sports''])]"
    by (simp add: visitor_connected_eq)
  have without: "notifications_index (run [PostPosts store_up game_day] visitor_connected)
      = [game_day_doc ''alice'']"
    by (simp add: run_def visitor_connected_eq store_up_def key_defs publish_defs)
  note inst = unbound_session_creates_no_subscription
    [OF found unbound, of "''sports''" "[PostPosts store_up game_day]"]
  from inst
  have rooms: "map_of (sockets (fst (on_subscribeToTopic ''s9'' ''sports'' visitor_connected)))
      ''s9'' = Some \<lparr>socket_username = None, rooms = [''sports'', ''s9'']\<rparr>"
    by (simp add: socket_join_def)
  from inst
  have "userSubscriptions (fst (on_subscribeToTopic ''s9'' ''sports'' visitor_connected))
      = userSubscriptions visitor_connected"
    by blast
  with registry
  have same: "userSubscriptions (fst (on_subscribeToTopic ''s9'' ''sports'' visitor_connected))
      = [(''alice'', [''sports''])]"
    by simp
  from inst
  have "notifications_index
      (run [PostPosts store_up game_day]
         (fst (on_subscribeToTopic ''s9'' ''sports'' visitor_connected)))
      = notifications_index (run [PostPosts store_up game_day] visitor_connected)"
    by blast
  with without
  have log: "notifications_index
      (run [PostPosts store_up game_day]
         (fst (on_subscribeToTopic ''s9'' ''sports'' visitor_connected)))
      = [game_day_doc ''alice'']"
    by simp
  from found rooms same log show ?thesis
    by simp
qed

text \<open>
  X1. Subscribing through a session delivers. Let a session be registered under a username
  \<open>u\<close> that is not empty and is not the name of a property inherited from
  \<open>Object.prototype\<close>. After its \<open>subscribeToTopic\<close> event for \<open>t\<close> the registry holds
  \<open>(u, t)\<close>, and a publish to \<open>t\<close> whose store calls for the post and for \<open>u\<close> succeed
  adds to the notification index a document addressed to \<open>u\<close> whose \<open>postId\<close> is the id
  of the post; the listing for \<open>u\<close> shows it when the term \<open>u\<close> matches the username
  \<open>u\<close> and the page of the store holds every document that the term matches.
\<close>

theorem session_subscribe_then_publish_delivers:
  assumes "map_of (sockets s) sid = Some sk" and "socket_username sk = Some u" and "u \<noteq> []"
    and "u \<notin> set objectPrototypeKeys" and "index_error env = None"
    and "notification_stored env u" and "req_topic req = t"
  shows "subscribed (fst (on_subscribeToTopic sid t s)) u t
       \<and> postId (doc_of (notification_of env req) u) = req_id req
       \<and> doc_of (notification_of env req) u
           \<in> set (log_for u (fst (post_posts env req (fst (on_subscribeToTopic sid t s)))))
       \<and> (m u u
            \<and> length (matched m u (fst (post_posts env req (fst (on_subscribeToTopic sid t s)))))
                \<le> page \<longrightarrow>
            doc_of (notification_of env req) u
              \<in> set (search_hits m page u
                       (notifications_index
                          (fst (post_posts env req (fst (on_subscribeToTopic sid t s)))))))"
proof -
  let ?s1 = "fst (on_subscribeToTopic sid t s)"
  let ?s2 = "fst (post_posts env req ?s1)"
  let ?d = "doc_of (notification_of env req) u"
  have sub: "subscribed ?s1 u t"
    using assms(1-4) by (rule on_subscribeToTopic_subscribes)
  with assms(7) have sub': "subscribed ?s1 u (req_topic req)"
    by simp
  have pid: "postId ?d = req_id req"
    by (simp add: doc_of_def notification_of_def)
  from sub' assms(6) subscribed_in_keys [OF sub']
  have "?d \<in> set (notifications_index ?s2)"
    by (simp add: post_posts_notifications_index [OF assms(5)])
  then have logged: "?d \<in> set (log_for u ?s2)"
    by (simp add: log_for_def doc_of_def)
  have listed: "?d \<in> set (search_hits m page u (notifications_index ?s2))"
    if "m u u" and "length (matched m u ?s2) \<le> page"
    using search_hits_complete [OF that(2)] logged
      log_for_subset_matched [of m u ?s2, OF that(1)]
    by auto
  from sub pid logged listed show ?thesis
    by blast
qed

theorem session_subscribe_then_publish_delivers_witness:
  "map_of (sockets alice_registered) ''s1''
     = Some \<lparr>socket_username = Some ''alice'', rooms = [''alice'', ''s1'']\<rparr>
   \<and> ''alice'' \<noteq> [] \<and> ''alice'' \<notin> set objectPrototypeKeys
   \<and> index_error store_up = None \<and> notification_stored store_up ''alice''
   \<and> req_topic game_day = ''sports''
   \<and> subscribed (fst (on_subscribeToTopic ''s1'' ''sports'' alice_registered)) ''alice''
        ''sports''
   \<and> keyword_match ''alice'' ''alice''
   \<and> game_day_doc ''alice''
       \<in> set (search_hits keyword_match 10 ''alice''
                (notifications_index
                   (fst (post_posts store_up game_day
                      (fst (on_subscribeToTopic ''s1'' ''sports'' alice_registered))))))"
proof -
  let ?sk = "\<lparr>socket_username = Some ''alice'', rooms = [''alice'', ''s1'']\<rparr>"
  have found: "map_of (sockets alice_registered) ''s1'' = Some ?sk"
    by (simp add: alice_registered_eq)
  have bound: "socket_username ?sk = Some ''alice''"
    by simp
  have name: "''alice'' \<noteq> []" "''alice'' \<notin> set objectPrototypeKeys"
    by (simp_all add: objectPrototypeKeys_def)
  have env: "index_error store_up = None" "notification_stored store_up ''alice''"
    by (simp_all add: store_up_def)
  have topic: "req_topic game_day = ''sports''"
    by (simp add: game_day_def)
  have doc: "doc_of (notification_of store_up game_day) ''alice'' = game_day_doc ''alice''"
    by (simp add: doc_of_def notification_of_def store_up_def game_day_def game_day_doc_def)
  have whole: "keyword_match ''alice'' ''alice''"
    by (simp add: keyword_match_def)
  have len: "length (matched keyword_match ''alice''
      (fst (post_posts store_up game_day
         (fst (on_subscribeToTopic ''s1'' ''sports'' alice_registered))))) \<le> 10"
    using publish_to_alice
    by (simp add: alice_on_sports_def matched_def game_day_doc_def)
  note inst = session_subscribe_then_publish_delivers
    [OF found bound name env topic, of keyword_match 10]
  from inst whole len doc
  have "game_day_doc ''alice''
      \<in> set (search_hits keyword_match 10 ''alice''
               (notifications_index
                  (fst (post_posts store_up game_day
                     (fst (on_subscribeToTopic ''s1'' ''sports'' alice_registered))))))"
    by simp
  moreover from inst
  have "subscribed (fst (on_subscribeToTopic ''s1'' ''sports'' alice_registered)) ''alice''
      ''sports''"
    by blast
  ultimately show ?thesis
    using found name env topic whole by simp
qed

text \<open>
  X2. A username that names a property inherited from \<open>Object.prototype\<close> (such as
  \<open>constructor\<close>) can never be subscribed. In every state the server reaches from its
  start, a \<open>subscribeToTopic\<close> event on a session registered under such a name throws a
  \<open>TypeError\<close> and leaves the registry as it was, without the pair.
\<close>

theorem inherited_name_cannot_subscribe:
  assumes "map_of (sockets (run es initial_state)) sid = Some sk"
    and "socket_username sk = Some u" and "u \<in> set objectPrototypeKeys"
  shows "snd (on_subscribeToTopic sid t (run es initial_state)) = Some TypeError
       \<and> userSubscriptions (fst (on_subscribeToTopic sid t (run es initial_state)))
           = userSubscriptions (run es initial_state)
       \<and> \<not> subscribed (fst (on_subscribeToTopic sid t (run es initial_state))) u t"
proof -
  let ?s = "run es initial_state"
  from own_keys_reachable [of es] assms(3)
  have "u \<notin> fst ` set (userSubscriptions ?s)"
    by auto
  then have none: "map_of (userSubscriptions ?s) u = None"
    by (simp add: map_of_eq_None_iff)
  with assms(3) have inh: "get_property (userSubscriptions ?s) u = Inherited"
    by (simp add: get_property_def)
  from assms(3) have "u \<noteq> []"
    by (rule inherited_not_empty)
  with assms(1,2) inh none show ?thesis
    by (simp add: on_subscribeToTopic_def Let_def falsy_def subscribed_def)
qed

theorem inherited_name_cannot_subscribe_witness:
  "map_of (sockets (run [Connection ''s7'', Register ''s7'' ''constructor''] initial_state))
     ''s7''
     = Some \<lparr>socket_username = Some ''constructor'', rooms = [''constructor'', ''s7'']\<rparr>
   \<and> ''constructor'' \<in> set objectPrototypeKeys
   \<and> snd (on_subscribeToTopic ''s7'' ''sports''
        (run [Connection ''s7'', Register ''s7'' ''constructor''] initial_state))
       = Some TypeError
   \<and> userSubscriptions
        (fst (on_subscribeToTopic ''s7'' ''sports''
           (run [Connection ''s7'', Register ''s7'' ''constructor''] initial_state)))
       = []"
proof -
  let ?s = "run [Connection ''s7'', Register ''s7'' ''constructor''] initial_state"
  let ?sk = "\<lparr>socket_username = Some ''constructor'', rooms = [''constructor'', ''s7'']\<rparr>"
  have state: "?s = \<lparr>userSubscriptions = [], sockets = [(''s7'', ?sk)],
      notifications_index = [], es_index7 = [], emitted = []\<rparr>"
    by (simp add: run_def initial_state_def on_connection_def on_register_def
        socket_join_def)
  have found: "map_of (sockets ?s) ''s7'' = Some ?sk"
    by (simp add: state)
  have bound: "socket_username ?sk = Some ''constructor''"
    by simp
  have name: "''constructor'' \<in> set objectPrototypeKeys"
    by (simp add: objectPrototypeKeys_def)
  have registry: "userSubscriptions ?s = []"
    by (simp add: state)
  from inherited_name_cannot_subscribe [OF found bound name, of "''sports''"]
  have "snd (on_subscribeToTopic ''s7'' ''sports'' ?s) = Some TypeError"
    and "userSubscriptions (fst (on_subscribeToTopic ''s7'' ''sports'' ?s))
      = userSubscriptions ?s"
    by blast+
  with found name registry show ?thesis
    by simp
qed

text \<open>
  X3. The clear under the keyword mapping that the server declares. For every match, the
  listing for \<open>u\<close> that follows a clear for \<open>u\<close> carried out by the store answers with no
  entries. When the term is compared with the whole username, the clear leaves no document
  addressed to \<open>u\<close>, and for every other user \<open>v\<close> the documents addressed to \<open>v\<close> and
  the reply of the listing for \<open>v\<close> are what they were before the clear.
\<close>

theorem clear_under_keyword_mapping:
  "snd (get_notifications m page None u (fst (clear_notifications m None u s)))
     = Reply 200 (NotificationsBody [])
   \<and> log_for u (fst (clear_notifications keyword_match None u s)) = []
   \<and> (v \<noteq> u \<longrightarrow>
        log_for v (fst (clear_notifications keyword_match None u s)) = log_for v s
        \<and> snd (get_notifications keyword_match page err v
                 (fst (clear_notifications keyword_match None u s)))
            = snd (get_notifications keyword_match page err v s))"
proof -
  have a: "snd (get_notifications m page None u (fst (clear_notifications m None u s)))
      = Reply 200 (NotificationsBody [])"
    by (simp add: get_notifications_def search_hits_matched matched_clear_same)
  have b: "log_for u (fst (clear_notifications keyword_match None u s)) = []"
    by (rule log_for_clear_same) (simp add: keyword_match_def)
  have c: "log_for v (fst (clear_notifications keyword_match None u s)) = log_for v s"
    if "v \<noteq> u"
    by (rule log_for_clear_other) (use that in \<open>simp add: keyword_match_def\<close>)
  have d: "snd (get_notifications keyword_match page err v
        (fst (clear_notifications keyword_match None u s)))
      = snd (get_notifications keyword_match page err v s)" if "v \<noteq> u"
    by (rule get_notifications_matched) (simp add: matched_keyword c [OF that])
  from a b c d show ?thesis by simp
qed

text \<open>
  After the publish of the scenario both Alice and Bob hold one document. Clearing for
  Alice empties her listing and leaves Bob's document and Bob's listing.
\<close>

theorem clear_under_keyword_mapping_witness:
  "log_for ''alice'' (fst (post_posts store_up game_day alice_and_bob_on_sports))
     = [game_day_doc ''alice'']
   \<and> ''bob'' \<noteq> ''alice''
   \<and> snd (get_notifications keyword_match 10 None ''alice''
        (fst (clear_notifications keyword_match None ''alice''
           (fst (post_posts store_up game_day alice_and_bob_on_sports)))))
       = Reply 200 (NotificationsBody [])
   \<and> snd (get_notifications keyword_match 10 None ''bob''
        (fst (clear_notifications keyword_match None ''alice''
           (fst (post_posts store_up game_day alice_and_bob_on_sports)))))
       = Reply 200 (NotificationsBody [game_day_doc ''bob''])"
proof -
  let ?s = "fst (post_posts store_up game_day alice_and_bob_on_sports)"
  have before: "log_for ''alice'' ?s = [game_day_doc ''alice'']"
    by (simp add: publish_to_alice_and_bob log_for_def game_day_doc_def)
  have bob: "snd (get_notifications keyword_match 10 None ''bob'' ?s)
      = Reply 200 (NotificationsBody [game_day_doc ''bob''])"
    by (simp add: publish_to_alice_and_bob get_notifications_def search_hits_def
        game_day_doc_def keyword_match_def)
  from clear_under_keyword_mapping [of keyword_match 10 "''alice''" ?s "''bob''" None]
       before bob
  show ?thesis by simp
qed

end
